theory Spec2Isabelle
  imports Complex_Main
begin

section \<open>Data model of \<open>src/services/openai.ts\<close>\<close>

text \<open>
  The \<open>Message\<close> interface: \<open>username\<close> is optional, so it is a \<open>string option\<close> with
  \<open>None\<close> for an absent field.
\<close>

datatype role = User | Assistant | System

record message =
  role :: role
  content :: string
  username :: "string option"

text \<open>
  The object literal \<open>{ role, content }\<close> that \<open>predictMessage\<close> builds for the request.
  It has no \<open>username\<close> field.
\<close>

record turn =
  turn_role :: role
  turn_content :: string

text \<open>
  The argument of \<open>openai.chat.completions.create\<close> and what the call gives back.
  A choice carries \<open>message.content\<close>, which the client library types as
  \<open>string | null\<close>; a rejected promise is \<open>Inl\<close> of the error.
\<close>

record request =
  model :: string
  messages :: "turn list"
  max_tokens :: nat
  temperature :: real
  presence_penalty :: real
  frequency_penalty :: real

datatype choice = Choice "string option"

datatype error = Error string

type_synonym completion = "choice list"

type_synonym response = "error + completion"

text \<open>
  A \<open>PredictionListener\<close> is a callback compared by reference; the reference is a
  number here. What a listener does when it is called is not in this file: a
  \<open>behaviour\<close> gives it, saying for a listener and the two arguments of the call
  whether the call returns (\<open>None\<close>) or throws (\<open>Some\<close> of the error). A listener
  is taken not to call methods of the service while it runs.
\<close>

type_synonym listener = nat

type_synonym behaviour = "listener \<Rightarrow> string \<Rightarrow> string \<Rightarrow> error option"

text \<open>
  The private fields of \<open>OpenAIService\<close>. \<open>predictionListeners\<close> is a JavaScript
  \<open>Set\<close>, which iterates in insertion order: a list, kept free of duplicates by
  \<open>addPredictionListener\<close>. \<open>null\<close> is \<open>None\<close>.
\<close>

record service =
  messageHistory :: "string \<rightharpoonup> message list"
  currentChatId :: "string option"
  currentUserId :: "string option"
  predictionListeners :: "listener list"

definition init :: service where
  "init = \<lparr>messageHistory = Map.empty, currentChatId = None, currentUserId = None,
            predictionListeners = []\<rparr>"

text \<open>
  What a call does besides changing the fields: console output, the request sent to the
  completion API, and calls of listeners, in the order they happen. \<open>Notify l c p\<close>
  is the call \<open>l(c, p)\<close>, whether it returns or throws.
\<close>

datatype console =
    PredictionSkippedWrongChat string "string option" "string option"
  | PredictionSkippedNoMessages
  | PredictionSkippedDisabled
  | ProcessingMessages "message list"
  | ProcessingMessage "string option" "string option" bool
  | PredictionSkippedNoFormatted
  | SendingToOpenAI "turn list"
  | FullContext string "turn list" "string option" "string option" nat
  | ReceivedPrediction string
  | ErrorPredicting error
  | PredictionCleared string
  | RegenerationSkipped

datatype event =
    Console console
  | Create request
  | Notify listener string string

record 'a outcome =
  retval :: 'a
  after :: service
  effects :: "event list"

fun requests_of :: "event list \<Rightarrow> request list" where
  "requests_of [] = []"
| "requests_of (Create r # es) = r # requests_of es"
| "requests_of (_ # es) = requests_of es"

fun notifications_of :: "event list \<Rightarrow> (listener \<times> string \<times> string) list" where
  "notifications_of [] = []"
| "notifications_of (Notify l c p # es) = (l, c, p) # notifications_of es"
| "notifications_of (_ # es) = notifications_of es"

section \<open>JavaScript operators the service relies on\<close>

text \<open>\<open>!v\<close> for \<open>v : string | null\<close>: true for \<open>null\<close> and for the empty string.\<close>

definition falsy :: "string option \<Rightarrow> bool" where
  "falsy v = (case v of None \<Rightarrow> True | Some t \<Rightarrow> t = [])"

text \<open>
  \<open>a === b\<close> for \<open>a : string | undefined\<close> and \<open>b : string | null\<close>: two strings
  with the same characters; \<open>undefined === null\<close> is false.
\<close>

definition strict_equals :: "string option \<Rightarrow> string option \<Rightarrow> bool" where
  "strict_equals a b = (case a of None \<Rightarrow> False | Some x \<Rightarrow> (case b of None \<Rightarrow> False | Some y \<Rightarrow> x = y))"

text \<open>\<open>xs.slice(-n)\<close>: a copy of the last \<open>n\<close> elements, all of them when there are fewer.\<close>

definition slice_last :: "nat \<Rightarrow> 'a list \<Rightarrow> 'a list" where
  "slice_last n xs = drop (length xs - n) xs"

text \<open>\<open>completion.choices[0]?.message?.content || ''\<close>.\<close>

definition first_choice_content :: "completion \<Rightarrow> string" where
  "first_choice_content choices =
     (case choices of
        [] \<Rightarrow> []
      | Choice None # _ \<Rightarrow> []
      | Choice (Some t) # _ \<Rightarrow> t)"

section \<open>The methods of \<open>OpenAIService\<close>\<close>

definition addPredictionListener :: "service \<Rightarrow> listener \<Rightarrow> service" where
  "addPredictionListener s l =
     (if l \<in> set (predictionListeners s) then s
      else s\<lparr>predictionListeners := predictionListeners s @ [l]\<rparr>)"

definition removePredictionListener :: "service \<Rightarrow> listener \<Rightarrow> service" where
  "removePredictionListener s l = s\<lparr>predictionListeners := removeAll l (predictionListeners s)\<rparr>"

text \<open>
  \<open>Set.prototype.forEach\<close> with the callback \<open>listener => listener(chatId, prediction)\<close>:
  the listeners are called in insertion order; when one throws, the iteration stops
  there and the error goes on to the caller of \<open>forEach\<close>. The result is the error
  thrown, if any, and the calls made.
\<close>

fun forEach_listener :: "behaviour \<Rightarrow> string \<Rightarrow> string \<Rightarrow> listener list \<Rightarrow> error option \<times> event list" where
  "forEach_listener calls chatId prediction [] = (None, [])"
| "forEach_listener calls chatId prediction (l # ls) =
     (case calls l chatId prediction of
        Some e \<Rightarrow> (Some e, [Notify l chatId prediction])
      | None \<Rightarrow>
          (case forEach_listener calls chatId prediction ls of
             (thrown, called) \<Rightarrow> (thrown, Notify l chatId prediction # called)))"

definition notifyPredictionListeners :: "behaviour \<Rightarrow> service \<Rightarrow> string \<Rightarrow> string \<Rightarrow> error option \<times> event list" where
  "notifyPredictionListeners calls s chatId prediction =
     forEach_listener calls chatId prediction (predictionListeners s)"

definition setCurrentUser :: "service \<Rightarrow> string \<Rightarrow> service" where
  "setCurrentUser s userId = s\<lparr>currentUserId := Some userId\<rparr>"

definition setCurrentChat :: "service \<Rightarrow> string option \<Rightarrow> service" where
  "setCurrentChat s chatId =
     (let s1 = s\<lparr>currentChatId := chatId\<rparr>
      in if falsy chatId then s1\<lparr>messageHistory := Map.empty\<rparr> else s1)"

definition systemPrompt :: string where
  "systemPrompt = ''You are participating in a Telegram chat conversation as the current user. Your task is to predict the next message that the current user would send, based on their speaking style and the conversation context. Keep responses natural and in character. Pay attention to the conversation flow. Respond in the same language as the conversation. Do not include any username prefixes in your response.''"

definition formatMessage :: "service \<Rightarrow> message \<Rightarrow> turn" where
  "formatMessage s msg =
     (let isCurrentUser = strict_equals (username msg) (currentUserId s)
      in \<lparr>turn_role = (if isCurrentUser then Assistant else User), turn_content = content msg\<rparr>)"

definition formatLog :: "service \<Rightarrow> message \<Rightarrow> event" where
  "formatLog s msg =
     Console (ProcessingMessage (username msg) (currentUserId s)
                (strict_equals (username msg) (currentUserId s)))"

definition completionRequest :: "turn list \<Rightarrow> request" where
  "completionRequest formattedMessages =
     \<lparr>model = ''gpt-4'',
      messages = \<lparr>turn_role = System, turn_content = systemPrompt\<rparr> # formattedMessages,
      max_tokens = 100,
      temperature = 7 / 10,
      presence_penalty = 6 / 10,
      frequency_penalty = 5 / 10\<rparr>"

text \<open>
  \<open>predictMessage\<close> is asynchronous. It runs without interruption up to the
  \<open>await\<close> of the completion call (\<open>predictMessage_sync\<close>, which either returns or has
  sent a request), and once the call has settled it runs to its end
  (\<open>predictMessage_resume\<close>) on the fields as they are by then. \<open>isAiEnabled\<close> is
  \<open>getGlobal().settings.byKey.isAiEnabled\<close>, read from a module outside this file.
\<close>

datatype pending = Done string | Awaiting request

definition predictMessage_sync :: "bool \<Rightarrow> service \<Rightarrow> string \<Rightarrow> message list \<Rightarrow> pending outcome" where
  "predictMessage_sync isAiEnabled s chatId msgs =
     (if Some chatId \<noteq> currentChatId s \<or> falsy (currentUserId s) then
        \<lparr>retval = Done [], after = s,
         effects = [Console (PredictionSkippedWrongChat chatId (currentChatId s) (currentUserId s))]\<rparr>
      else if length msgs = 0 then
        \<lparr>retval = Done [], after = s, effects = [Console PredictionSkippedNoMessages]\<rparr>
      else if \<not> isAiEnabled then
        \<lparr>retval = Done [], after = s, effects = [Console PredictionSkippedDisabled]\<rparr>
      else
        let recentMessages = slice_last 20 msgs;
            s1 = s\<lparr>messageHistory := (messageHistory s)(chatId \<mapsto> recentMessages)\<rparr>;
            formattedMessages = map (formatMessage s1) recentMessages;
            logged = Console (ProcessingMessages recentMessages) # map (formatLog s1) recentMessages
        in if length formattedMessages = 0 then
             \<lparr>retval = Done [], after = s1, effects = logged @ [Console PredictionSkippedNoFormatted]\<rparr>
           else
             \<lparr>retval = Awaiting (completionRequest formattedMessages), after = s1,
              effects = logged @
                [Console (SendingToOpenAI formattedMessages),
                 Console (FullContext systemPrompt formattedMessages (currentUserId s1)
                            (currentChatId s1) (length formattedMessages)),
                 Create (completionRequest formattedMessages)]\<rparr>)"

text \<open>
  The rest of the \<open>try\<close> block after the \<open>await\<close>: a rejected call throws, a
  fulfilled one is read, logged and passed to the listeners; a listener that throws
  does so inside the \<open>try\<close> block as well, before the \<open>return\<close>.
\<close>

definition predictMessage_try :: "behaviour \<Rightarrow> service \<Rightarrow> string \<Rightarrow> response \<Rightarrow> (error + string) outcome" where
  "predictMessage_try calls s chatId resp =
     (case resp of
        Inl e \<Rightarrow> \<lparr>retval = Inl e, after = s, effects = []\<rparr>
      | Inr completion \<Rightarrow>
          let prediction = first_choice_content completion;
              n = notifyPredictionListeners calls s chatId prediction
          in \<lparr>retval = (case fst n of Some e \<Rightarrow> Inl e | None \<Rightarrow> Inr prediction), after = s,
              effects = Console (ReceivedPrediction prediction) # snd n\<rparr>)"

text \<open>The \<open>catch\<close> clause: log the error and return the empty string.\<close>

definition predictMessage_resume :: "behaviour \<Rightarrow> service \<Rightarrow> string \<Rightarrow> response \<Rightarrow> string outcome" where
  "predictMessage_resume calls s chatId resp =
     (let t = predictMessage_try calls s chatId resp
      in case retval t of
           Inl e \<Rightarrow> \<lparr>retval = [], after = after t, effects = effects t @ [Console (ErrorPredicting e)]\<rparr>
         | Inr prediction \<Rightarrow> \<lparr>retval = prediction, after = after t, effects = effects t\<rparr>)"

text \<open>
  A whole call during which nothing else runs while the request is in flight; \<open>openai\<close>
  is the completion API as a function of the request, \<open>calls\<close> the behaviour of the
  listeners.
\<close>

definition predictMessage :: "(request \<Rightarrow> response) \<Rightarrow> behaviour \<Rightarrow> bool \<Rightarrow> service \<Rightarrow> string \<Rightarrow> message list \<Rightarrow> string outcome" where
  "predictMessage openai calls isAiEnabled s chatId msgs =
     (let b = predictMessage_sync isAiEnabled s chatId msgs
      in case retval b of
           Done r \<Rightarrow> \<lparr>retval = r, after = after b, effects = effects b\<rparr>
         | Awaiting req \<Rightarrow>
             let c = predictMessage_resume calls (after b) chatId (openai req)
             in \<lparr>retval = retval c, after = after c, effects = effects b @ effects c\<rparr>)"

definition updateHistory :: "service \<Rightarrow> string \<Rightarrow> message \<Rightarrow> service" where
  "updateHistory s chatId newMessage =
     (if Some chatId \<noteq> currentChatId s then s
      else
        let history = (case messageHistory s chatId of None \<Rightarrow> [] | Some h \<Rightarrow> h);
            pushed = history @ [newMessage];
            shifted = (if length pushed > 20 then tl pushed else pushed)
        in s\<lparr>messageHistory := (messageHistory s)(chatId \<mapsto> shifted)\<rparr>)"

definition clearHistory :: "service \<Rightarrow> string \<Rightarrow> service" where
  "clearHistory s chatId = s\<lparr>messageHistory := (messageHistory s)(chatId := None)\<rparr>"

text \<open>
  \<open>clearPrediction\<close> has no \<open>try\<close>: an error thrown by a listener leaves the method
  at that point, after the history was deleted and before the console line, and reaches
  the caller (\<open>Inl\<close>).
\<close>

definition clearPrediction :: "behaviour \<Rightarrow> service \<Rightarrow> (error + unit) outcome" where
  "clearPrediction calls s =
     (case currentChatId s of
        None \<Rightarrow> \<lparr>retval = Inr (), after = s, effects = []\<rparr>
      | Some c \<Rightarrow>
          if falsy (Some c) then \<lparr>retval = Inr (), after = s, effects = []\<rparr>
          else
            let s1 = s\<lparr>messageHistory := (messageHistory s)(c := None)\<rparr>;
                n = notifyPredictionListeners calls s1 c []
            in case fst n of
                 Some e \<Rightarrow> \<lparr>retval = Inl e, after = s1, effects = snd n\<rparr>
               | None \<Rightarrow>
                   \<lparr>retval = Inr (), after = s1,
                    effects = snd n @ [Console (PredictionCleared c)]\<rparr>)"

definition regeneratePrediction_sync :: "bool \<Rightarrow> service \<Rightarrow> string \<Rightarrow> message list \<Rightarrow> pending outcome" where
  "regeneratePrediction_sync isAiEnabled s chatId msgs =
     (if \<not> isAiEnabled then
        \<lparr>retval = Done [], after = s, effects = [Console RegenerationSkipped]\<rparr>
      else predictMessage_sync isAiEnabled s chatId msgs)"

definition regeneratePrediction :: "(request \<Rightarrow> response) \<Rightarrow> behaviour \<Rightarrow> bool \<Rightarrow> service \<Rightarrow> string \<Rightarrow> message list \<Rightarrow> string outcome" where
  "regeneratePrediction openai calls isAiEnabled s chatId msgs =
     (if \<not> isAiEnabled then
        \<lparr>retval = [], after = s, effects = [Console RegenerationSkipped]\<rparr>
      else predictMessage openai calls isAiEnabled s chatId msgs)"

section \<open>Sequences of calls\<close>

text \<open>
  What the event loop runs one at a time: a call of a synchronous method, the part of
  \<open>predictMessage\<close> or \<open>regeneratePrediction\<close> up to its \<open>await\<close>, or the
  continuation of an earlier call whose request has settled with the given response.
  A whole \<open>predictMessage\<close> with nothing in between is \<open>PredictMessage\<close> followed
  by \<open>Resume\<close>. The two that call listeners carry the behaviour the listeners show
  at that moment. An error that \<open>clearPrediction\<close> lets through reaches its caller,
  and the service goes on from the fields as they were left.
\<close>

datatype op =
    SetCurrentUser string
  | SetCurrentChat "string option"
  | AddPredictionListener listener
  | RemovePredictionListener listener
  | UpdateHistory string message
  | ClearHistory string
  | ClearPrediction behaviour
  | PredictMessage bool string "message list"
  | RegeneratePrediction bool string "message list"
  | Resume behaviour string response

fun exec :: "service \<Rightarrow> op \<Rightarrow> service \<times> event list" where
  "exec s (SetCurrentUser u) = (setCurrentUser s u, [])"
| "exec s (SetCurrentChat c) = (setCurrentChat s c, [])"
| "exec s (AddPredictionListener l) = (addPredictionListener s l, [])"
| "exec s (RemovePredictionListener l) = (removePredictionListener s l, [])"
| "exec s (UpdateHistory c m) = (updateHistory s c m, [])"
| "exec s (ClearHistory c) = (clearHistory s c, [])"
| "exec s (ClearPrediction calls) =
     (after (clearPrediction calls s), effects (clearPrediction calls s))"
| "exec s (PredictMessage e c ms) =
     (after (predictMessage_sync e s c ms), effects (predictMessage_sync e s c ms))"
| "exec s (RegeneratePrediction e c ms) =
     (after (regeneratePrediction_sync e s c ms), effects (regeneratePrediction_sync e s c ms))"
| "exec s (Resume calls c r) =
     (after (predictMessage_resume calls s c r), effects (predictMessage_resume calls s c r))"

fun run :: "service \<Rightarrow> op list \<Rightarrow> service \<times> event list" where
  "run s [] = (s, [])"
| "run s (x # xs) =
     (case exec s x of (s1, es) \<Rightarrow> (case run s1 xs of (s2, fs) \<Rightarrow> (s2, es @ fs)))"

section \<open>Properties stated about states and events\<close>

text \<open>No stored history is longer than 20 messages.\<close>

definition history_bounded :: "service \<Rightarrow> bool" where
  "history_bounded s = (\<forall>c h. messageHistory s c = Some h \<longrightarrow> length h \<le> 20)"

text \<open>The listener \<open>l\<close> is called somewhere in the events.\<close>

definition notified :: "listener \<Rightarrow> event list \<Rightarrow> bool" where
  "notified l es = (l \<in> fst ` set (notifications_of es))"

text \<open>Two messages and a response used in the examples below.\<close>

abbreviation msg_hi :: message where
  "msg_hi \<equiv> \<lparr>role = User, content = ''hi'', username = Some ''bob''\<rparr>"

abbreviation msg_yo :: message where
  "msg_yo \<equiv> \<lparr>role = User, content = ''yo'', username = Some ''alice''\<rparr>"

abbreviation hello :: response where
  "hello \<equiv> Inr [Choice (Some ''hello!'')]"

text \<open>A completion API that gives the same response to every request.\<close>

abbreviation always :: "response \<Rightarrow> request \<Rightarrow> response" where
  "always resp \<equiv> (\<lambda>r. resp)"

text \<open>
  A service with one listener, user \<open>alice\<close> and active chat \<open>C1\<close>.
\<close>

abbreviation ready :: service where
  "ready \<equiv> setCurrentChat (setCurrentUser (addPredictionListener init 7) ''alice'') (Some ''C1'')"

text \<open>
  Listeners that all return, and listeners of which number 7 throws.
\<close>

abbreviation returning :: behaviour where
  "returning \<equiv> (\<lambda>l c p. None)"


section \<open>Auxiliary facts\<close>

lemma falsy_simps: "falsy None" "falsy (Some t) = (t = [])"
  by (simp_all add: falsy_def)

lemma ready_fields:
  "currentChatId ready = Some ''C1''" "currentUserId ready = Some ''alice''"
  "predictionListeners ready = [7]" "messageHistory ready = Map.empty"
  by (simp_all add: setCurrentChat_def setCurrentUser_def addPredictionListener_def init_def
        falsy_simps)

lemma requests_of_append: "requests_of (xs @ ys) = requests_of xs @ requests_of ys"
  by (induction xs rule: requests_of.induct) simp_all

lemma notifications_of_append:
  "notifications_of (xs @ ys) = notifications_of xs @ notifications_of ys"
  by (induction xs rule: notifications_of.induct) simp_all

lemma requests_of_formatLog: "requests_of (map (formatLog s) ms) = []"
  by (induction ms) (simp_all add: formatLog_def)

lemma notifications_of_formatLog: "notifications_of (map (formatLog s) ms) = []"
  by (induction ms) (simp_all add: formatLog_def)

lemma requests_of_Notify: "requests_of (map (\<lambda>l. Notify l c p) ls) = []"
  by (induction ls) simp_all

lemma notifications_of_Notify:
  "notifications_of (map (\<lambda>l. Notify l c p) ls) = map (\<lambda>l. (l, c, p)) ls"
  by (induction ls) simp_all



lemma forEach_listener_prefix:
  "\<exists>n. snd (forEach_listener calls c p ls) = map (\<lambda>l. Notify l c p) (take n ls)"
proof (induction ls)
  case Nil
  then show ?case by simp
next
  case (Cons l ls)
  then obtain n where n: "snd (forEach_listener calls c p ls) = map (\<lambda>l. Notify l c p) (take n ls)"
    by blast
  show ?case
  proof (cases "calls l c p")
    case None
    with n have "snd (forEach_listener calls c p (l # ls)) =
                   map (\<lambda>l. Notify l c p) (take (Suc n) (l # ls))"
      by (simp add: case_prod_beta)
    then show ?thesis by blast
  next
    case (Some e)
    then have "snd (forEach_listener calls c p (l # ls)) =
                 map (\<lambda>l. Notify l c p) (take (Suc 0) (l # ls))"
      by simp
    then show ?thesis by blast
  qed
qed

lemma requests_of_notify: "requests_of (snd (notifyPredictionListeners calls s c p)) = []"
  using forEach_listener_prefix [of calls c p "predictionListeners s"]
  by (auto simp: notifyPredictionListeners_def requests_of_Notify)

lemma notifications_of_notify:
  "set (notifications_of (snd (notifyPredictionListeners calls s c p)))
     \<subseteq> set (predictionListeners s) \<times> UNIV"
proof -
  from forEach_listener_prefix [of calls c p "predictionListeners s"] obtain n where
    "snd (notifyPredictionListeners calls s c p) =
       map (\<lambda>l. Notify l c p) (take n (predictionListeners s))"
    by (auto simp: notifyPredictionListeners_def)
  then show ?thesis
    by (auto simp: notifications_of_Notify dest: in_set_takeD)
qed

lemma formatMessage_history:
  "formatMessage (s\<lparr>messageHistory := h\<rparr>) = formatMessage s"
  by (rule ext) (simp add: formatMessage_def)

lemma formatLog_history:
  "formatLog (s\<lparr>messageHistory := h\<rparr>) = formatLog s"
  by (rule ext) (simp add: formatLog_def)

lemma slice_last_nonempty: "msgs \<noteq> [] \<Longrightarrow> slice_last 20 msgs \<noteq> []"
  by (cases msgs) (simp_all add: slice_last_def)

lemma predictMessage_sync_skip:
  assumes "Some chatId \<noteq> currentChatId s \<or> falsy (currentUserId s) \<or> msgs = [] \<or> \<not> isAiEnabled"
  shows "\<exists>c. predictMessage_sync isAiEnabled s chatId msgs =
           \<lparr>retval = Done [], after = s, effects = [Console c]\<rparr>"
  using assms by (auto simp: predictMessage_sync_def)

lemma predictMessage_sync_pass:
  assumes "currentChatId s = Some chatId" "\<not> falsy (currentUserId s)" "msgs \<noteq> []" "isAiEnabled"
  shows "retval (predictMessage_sync isAiEnabled s chatId msgs) =
           Awaiting (completionRequest (map (formatMessage s) (slice_last 20 msgs)))"
    and "after (predictMessage_sync isAiEnabled s chatId msgs) =
           s\<lparr>messageHistory := (messageHistory s)(chatId \<mapsto> slice_last 20 msgs)\<rparr>"
    and "requests_of (effects (predictMessage_sync isAiEnabled s chatId msgs)) =
           [completionRequest (map (formatMessage s) (slice_last 20 msgs))]"
    and "notifications_of (effects (predictMessage_sync isAiEnabled s chatId msgs)) = []"
  using assms slice_last_nonempty [of msgs]
  by (simp_all add: predictMessage_sync_def Let_def requests_of_append formatMessage_history
        formatLog_history notifications_of_append requests_of_formatLog notifications_of_formatLog)

lemma predictMessage_resume_error:
  "predictMessage_resume calls s chatId (Inl e) =
     \<lparr>retval = [], after = s, effects = [Console (ErrorPredicting e)]\<rparr>"
  by (simp add: predictMessage_resume_def predictMessage_try_def)



lemma predictMessage_resume_requests:
  "requests_of (effects (predictMessage_resume calls s chatId r)) = []"
  by (cases r)
     (simp_all add: predictMessage_resume_def predictMessage_try_def Let_def requests_of_append
        requests_of_notify split: option.splits)

lemma predictMessage_pass:
  assumes "currentChatId s = Some chatId" "\<not> falsy (currentUserId s)" "msgs \<noteq> []" "isAiEnabled"
  shows "predictMessage openai calls isAiEnabled s chatId msgs =
     \<lparr>retval = retval (predictMessage_resume calls (after (predictMessage_sync isAiEnabled s chatId msgs)) chatId
                  (openai (completionRequest (map (formatMessage s) (slice_last 20 msgs))))),
      after = after (predictMessage_resume calls (after (predictMessage_sync isAiEnabled s chatId msgs)) chatId
                  (openai (completionRequest (map (formatMessage s) (slice_last 20 msgs))))),
      effects = effects (predictMessage_sync isAiEnabled s chatId msgs) @
                effects (predictMessage_resume calls (after (predictMessage_sync isAiEnabled s chatId msgs)) chatId
                  (openai (completionRequest (map (formatMessage s) (slice_last 20 msgs)))))\<rparr>"
  using predictMessage_sync_pass(1) [OF assms]
  by (simp add: predictMessage_def Let_def)

lemma predictMessage_sync_after:
  "after (predictMessage_sync e s c ms) = s \<or>
   after (predictMessage_sync e s c ms) = s\<lparr>messageHistory := (messageHistory s)(c \<mapsto> slice_last 20 ms)\<rparr>"
  by (simp add: predictMessage_sync_def Let_def)

lemma predictMessage_sync_quiet: "notifications_of (effects (predictMessage_sync e s c ms)) = []"
  by (simp add: predictMessage_sync_def Let_def notifications_of_append notifications_of_formatLog)

lemma regeneratePrediction_sync_after:
  "after (regeneratePrediction_sync e s c ms) = s \<or>
   after (regeneratePrediction_sync e s c ms) = s\<lparr>messageHistory := (messageHistory s)(c \<mapsto> slice_last 20 ms)\<rparr>"
  using predictMessage_sync_after [of e s c ms] by (cases e) (simp_all add: regeneratePrediction_sync_def)

lemma regeneratePrediction_sync_quiet:
  "notifications_of (effects (regeneratePrediction_sync e s c ms)) = []"
  by (simp add: regeneratePrediction_sync_def predictMessage_sync_quiet)

lemma predictMessage_resume_after: "after (predictMessage_resume calls s c r) = s"
  by (cases r)
     (simp_all add: predictMessage_resume_def predictMessage_try_def Let_def split: option.splits)

lemma predictMessage_resume_notifications:
  "set (notifications_of (effects (predictMessage_resume calls s c r)))
     \<subseteq> set (predictionListeners s) \<times> UNIV"
proof (cases r)
  case (Inl e)
  then show ?thesis by (simp add: predictMessage_resume_error)
next
  case (Inr completion)
  with notifications_of_notify [of calls s c "first_choice_content completion"] show ?thesis
    by (simp add: predictMessage_resume_def predictMessage_try_def Let_def
          notifications_of_append split: option.splits)
qed

lemma clearPrediction_after:
  "after (clearPrediction calls s) = s \<or>
   (\<exists>c. after (clearPrediction calls s) = s\<lparr>messageHistory := (messageHistory s)(c := None)\<rparr>)"
  by (auto simp: clearPrediction_def Let_def split: option.splits)

lemma clearPrediction_listeners:
  "predictionListeners (after (clearPrediction calls s)) = predictionListeners s"
  using clearPrediction_after [of calls s] by auto

lemma notify_history:
  "notifyPredictionListeners calls (s\<lparr>messageHistory := h\<rparr>) c p =
   notifyPredictionListeners calls s c p"
  by (simp add: notifyPredictionListeners_def)

lemma clearPrediction_notifications:
  "set (notifications_of (effects (clearPrediction calls s)))
     \<subseteq> set (predictionListeners s) \<times> UNIV"
proof (cases "currentChatId s")
  case None
  then show ?thesis by (simp add: clearPrediction_def)
next
  case (Some c)
  with notifications_of_notify [of calls s c "[]"] show ?thesis
    by (simp add: clearPrediction_def Let_def notifications_of_append notify_history
          split: option.splits)
qed

lemma length_slice_last: "length (slice_last 20 ms) \<le> 20"
  by (simp add: slice_last_def)

lemma history_bounded_init: "history_bounded init"
  by (simp add: history_bounded_def init_def)

lemma history_bounded_store:
  "history_bounded s \<Longrightarrow> length h \<le> 20 \<Longrightarrow>
   history_bounded (s\<lparr>messageHistory := (messageHistory s)(c \<mapsto> h)\<rparr>)"
  by (simp add: history_bounded_def)

lemma history_bounded_delete:
  "history_bounded s \<Longrightarrow> history_bounded (s\<lparr>messageHistory := (messageHistory s)(c := None)\<rparr>)"
  by (simp add: history_bounded_def)

lemma history_bounded_updateHistory:
  assumes "history_bounded s"
  shows "history_bounded (updateHistory s c m)"
proof (cases "Some c = currentChatId s")
  case False
  with assms show ?thesis by (simp add: updateHistory_def)
next
  case True
  show ?thesis
  proof (cases "messageHistory s c")
    case None
    with True assms show ?thesis
      by (simp add: updateHistory_def history_bounded_store)
  next
    case (Some h)
    with assms have "length h \<le> 20" by (simp add: history_bounded_def)
    then have "length (if 20 < length (h @ [m]) then tl (h @ [m]) else h @ [m]) \<le> 20"
      by simp
    with True Some assms show ?thesis
      by (simp add: updateHistory_def Let_def history_bounded_store del: tl_append2)
  qed
qed

lemma history_bounded_exec:
  assumes "history_bounded s"
  shows "history_bounded (fst (exec s x))"
proof (cases x)
  case (SetCurrentUser u)
  with assms show ?thesis by (simp add: setCurrentUser_def history_bounded_def)
next
  case (SetCurrentChat c)
  with assms show ?thesis by (simp add: setCurrentChat_def Let_def history_bounded_def)
next
  case (AddPredictionListener l)
  with assms show ?thesis by (simp add: addPredictionListener_def history_bounded_def)
next
  case (RemovePredictionListener l)
  with assms show ?thesis by (simp add: removePredictionListener_def history_bounded_def)
next
  case (UpdateHistory c m)
  with assms show ?thesis by (simp add: history_bounded_updateHistory)
next
  case (ClearHistory c)
  with assms show ?thesis by (simp add: clearHistory_def history_bounded_delete)
next
  case (ClearPrediction calls)
  with assms clearPrediction_after [of calls s] show ?thesis
    by (auto simp: history_bounded_delete)
next
  case (PredictMessage e c ms)
  with assms predictMessage_sync_after [of e s c ms] show ?thesis
    by (auto simp: history_bounded_store length_slice_last)
next
  case (RegeneratePrediction e c ms)
  with assms regeneratePrediction_sync_after [of e s c ms] show ?thesis
    by (auto simp: history_bounded_store length_slice_last)
next
  case (Resume calls c r)
  with assms show ?thesis by (simp add: predictMessage_resume_after)
qed

lemma run_Cons:
  "fst (run s (x # xs)) = fst (run (fst (exec s x)) xs)"
  "snd (run s (x # xs)) = snd (exec s x) @ snd (run (fst (exec s x)) xs)"
  by (simp_all add: case_prod_beta)

lemma history_bounded_run: "history_bounded s \<Longrightarrow> history_bounded (fst (run s ops))"
proof (induction ops arbitrary: s)
  case Nil
  then show ?case by simp
next
  case (Cons x xs)
  from Cons.prems have "history_bounded (fst (exec s x))" by (rule history_bounded_exec)
  from Cons.IH [OF this] show ?case by (simp only: run_Cons)
qed



lemma absent_exec:
  assumes "l \<notin> set (predictionListeners s)" and "x \<noteq> AddPredictionListener l"
  shows "l \<notin> set (predictionListeners (fst (exec s x))) \<and> \<not> notified l (snd (exec s x))"
proof (cases x)
  case (AddPredictionListener k)
  with assms show ?thesis by (auto simp: addPredictionListener_def notified_def)
next
  case (ClearPrediction calls)
  with assms clearPrediction_notifications [of calls s] show ?thesis
    by (auto simp: clearPrediction_listeners notified_def)
next
  case (PredictMessage e c ms)
  with assms predictMessage_sync_after [of e s c ms] show ?thesis
    by (auto simp: notified_def predictMessage_sync_quiet)
next
  case (RegeneratePrediction e c ms)
  with assms regeneratePrediction_sync_after [of e s c ms] show ?thesis
    by (auto simp: notified_def regeneratePrediction_sync_quiet)
next
  case (Resume calls c r)
  with assms predictMessage_resume_notifications [of calls s c r] show ?thesis
    by (auto simp: notified_def predictMessage_resume_after)
qed (use assms in \<open>simp_all add: setCurrentUser_def setCurrentChat_def Let_def notified_def
       removePredictionListener_def updateHistory_def clearHistory_def\<close>)

lemma notified_append: "notified l (es @ fs) = (notified l es \<or> notified l fs)"
  by (auto simp: notified_def notifications_of_append)

lemma absent_run:
  assumes "l \<notin> set (predictionListeners s)" and "AddPredictionListener l \<notin> set ops"
  shows "l \<notin> set (predictionListeners (fst (run s ops))) \<and> \<not> notified l (snd (run s ops))"
  using assms
proof (induction ops arbitrary: s)
  case Nil
  then show ?case by (simp add: notified_def)
next
  case (Cons x xs)
  from Cons.prems have x: "x \<noteq> AddPredictionListener l" and xs: "AddPredictionListener l \<notin> set xs"
    by auto
  from absent_exec [OF Cons.prems(1) x]
  have a: "l \<notin> set (predictionListeners (fst (exec s x)))" and b: "\<not> notified l (snd (exec s x))"
    by simp_all
  from Cons.IH [OF a xs] b show ?case
    by (simp only: run_Cons notified_append) simp
qed


text \<open>
  A whole call of \<open>predictMessage\<close> or \<open>regeneratePrediction\<close> is its
  synchronous part followed, when a request was sent, by its continuation.
\<close>

lemma predictMessage_as_run:
  "after (predictMessage openai calls e s c ms) =
     fst (run s (PredictMessage e c ms #
       (case retval (predictMessage_sync e s c ms) of
          Done r \<Rightarrow> [] | Awaiting req \<Rightarrow> [Resume calls c (openai req)])))"
  "effects (predictMessage openai calls e s c ms) =
     snd (run s (PredictMessage e c ms #
       (case retval (predictMessage_sync e s c ms) of
          Done r \<Rightarrow> [] | Awaiting req \<Rightarrow> [Resume calls c (openai req)])))"
  by (cases "retval (predictMessage_sync e s c ms)"; simp add: predictMessage_def Let_def)+

lemma regeneratePrediction_as_run:
  "after (regeneratePrediction openai calls e s c ms) =
     fst (run s (RegeneratePrediction e c ms #
       (case retval (regeneratePrediction_sync e s c ms) of
          Done r \<Rightarrow> [] | Awaiting req \<Rightarrow> [Resume calls c (openai req)])))"
  "effects (regeneratePrediction openai calls e s c ms) =
     snd (run s (RegeneratePrediction e c ms #
       (case retval (regeneratePrediction_sync e s c ms) of
          Done r \<Rightarrow> [] | Awaiting req \<Rightarrow> [Resume calls c (openai req)])))"
  by (cases e; cases "retval (predictMessage_sync e s c ms)";
      simp add: regeneratePrediction_def regeneratePrediction_sync_def predictMessage_def Let_def)+

section \<open>Switching the active chat\<close>

text \<open>
  C1, as the code has it: \<open>setCurrentChat\<close> records its argument as the active chat,
  and empties the history map exactly when the argument is \<open>null\<close> or the empty
  string; for every other argument, equal to the previous active chat or not, the
  history map stays as it was.
\<close>

theorem setCurrentChat_history:
  "messageHistory (setCurrentChat s chatId) =
     (if chatId = None \<or> chatId = Some [] then Map.empty else messageHistory s)
   \<and> currentChatId (setCurrentChat s chatId) = chatId"
  by (cases chatId) (simp_all add: setCurrentChat_def falsy_simps Let_def)

theorem setCurrentChat_history_witness:
  "messageHistory (setCurrentChat (updateHistory (setCurrentChat init (Some ''a'')) ''a'' msg_hi)
      None) = Map.empty
   \<and> messageHistory (setCurrentChat (updateHistory (setCurrentChat init (Some ''a'')) ''a'' msg_hi)
      (Some ''a'')) ''a'' = Some [msg_hi]"
  using setCurrentChat_history [of "updateHistory (setCurrentChat init (Some ''a'')) ''a'' msg_hi" None]
    setCurrentChat_history [of "updateHistory (setCurrentChat init (Some ''a'')) ''a'' msg_hi" "Some ''a''"]
  by (simp add: updateHistory_def setCurrentChat_def init_def falsy_simps)

text \<open>
  C1 as the claim words it fails: with chat \<open>a\<close> active and holding one message, the
  call \<open>setCurrentChat('b')\<close> has an argument different from the active chat, and
  the history of \<open>a\<close> is still stored afterwards.
\<close>

theorem setCurrentChat_other_chat_counterexample:
  "Some ''b'' \<noteq> currentChatId (updateHistory (setCurrentChat init (Some ''a'')) ''a'' msg_hi)
   \<and> messageHistory (setCurrentChat (updateHistory (setCurrentChat init (Some ''a'')) ''a'' msg_hi)
        (Some ''b'')) ''a'' = Some [msg_hi]
   \<and> messageHistory (setCurrentChat (updateHistory (setCurrentChat init (Some ''a'')) ''a'' msg_hi)
        (Some ''b'')) \<noteq> Map.empty"
proof -
  let ?s = "updateHistory (setCurrentChat init (Some ''a'')) ''a'' msg_hi"
  have a: "messageHistory (setCurrentChat ?s (Some ''b'')) ''a'' = Some [msg_hi]"
    by (simp add: updateHistory_def setCurrentChat_def init_def falsy_simps)
  have b: "Some ''b'' \<noteq> currentChatId ?s"
    by (simp add: updateHistory_def setCurrentChat_def init_def falsy_simps)
  from a have c: "messageHistory (setCurrentChat ?s (Some ''b'')) \<noteq> Map.empty"
    by (metis option.distinct(1))
  from a b c show ?thesis by simp
qed

section \<open>Gating of \<open>predictMessage\<close>\<close>

text \<open>
  C2: when \<open>chatId\<close> is not the active chat, or no current user is set, or the
  messages list is empty, or the AI-enabled setting is false, \<open>predictMessage\<close>
  returns the empty string, leaves every field of the service as it was, sends no
  request to the completion API and calls no listener.
\<close>

theorem predictMessage_gated:
  assumes "Some chatId \<noteq> currentChatId s \<or> currentUserId s = None \<or> msgs = [] \<or> \<not> isAiEnabled"
  shows "retval (predictMessage openai calls isAiEnabled s chatId msgs) = []
         \<and> after (predictMessage openai calls isAiEnabled s chatId msgs) = s
         \<and> requests_of (effects (predictMessage openai calls isAiEnabled s chatId msgs)) = []
         \<and> notifications_of (effects (predictMessage openai calls isAiEnabled s chatId msgs)) = []"
proof -
  from assms have "Some chatId \<noteq> currentChatId s \<or> falsy (currentUserId s) \<or> msgs = [] \<or> \<not> isAiEnabled"
    by (auto simp: falsy_simps)
  from predictMessage_sync_skip [OF this] obtain c where
    "predictMessage_sync isAiEnabled s chatId msgs = \<lparr>retval = Done [], after = s, effects = [Console c]\<rparr>"
    by blast
  then show ?thesis by (simp add: predictMessage_def)
qed

theorem predictMessage_gated_witness:
  "retval (predictMessage (always hello) returning False ready ''C1'' [msg_hi]) = []
   \<and> after (predictMessage (always hello) returning False ready ''C1'' [msg_hi]) = ready
   \<and> requests_of (effects (predictMessage (always hello) returning False ready ''C1'' [msg_hi])) = []
   \<and> notifications_of (effects (predictMessage (always hello) returning False ready ''C1'' [msg_hi])) = []
   \<and> retval (predictMessage (always hello) returning True ready ''C2'' [msg_hi]) = []
   \<and> after (predictMessage (always hello) returning True ready ''C2'' [msg_hi]) = ready
   \<and> retval (predictMessage (always hello) returning True ready ''C1'' []) = []
   \<and> retval (predictMessage (always hello) returning True (setCurrentChat init (Some ''C1'')) ''C1'' [msg_hi]) = []"
  using predictMessage_gated [of "''C1''" ready "[msg_hi]" False "always hello" returning]
    predictMessage_gated [of "''C2''" ready "[msg_hi]" True "always hello" returning]
    predictMessage_gated [of "''C1''" ready "[]" True "always hello" returning]
    predictMessage_gated [of "''C1''" "setCurrentChat init (Some ''C1'')" "[msg_hi]" True
      "always hello" returning]
  by (simp add: ready_fields setCurrentChat_def init_def falsy_simps)

section \<open>A prediction that goes through\<close>




text \<open>
  C4: when the gating checks pass and the completion call is rejected with an error,
  the error thrown inside the \<open>try\<close> block is caught: \<open>predictMessage\<close>
  returns the empty string, the last thing it does is log that error, and no listener
  is called. \<open>predictMessage\<close> is a total function into strings: no input makes
  it end with an error.
\<close>

theorem predictMessage_boundary_error:
  assumes "currentChatId s = Some chatId" and "\<not> falsy (currentUserId s)"
    and "msgs \<noteq> []" and "isAiEnabled"
    and "openai (completionRequest (map (formatMessage s) (slice_last 20 msgs))) = Inl e"
  shows "retval (predictMessage_try calls (after (predictMessage_sync isAiEnabled s chatId msgs)) chatId (Inl e)) = Inl e
         \<and> retval (predictMessage openai calls isAiEnabled s chatId msgs) = []
         \<and> last (effects (predictMessage openai calls isAiEnabled s chatId msgs)) = Console (ErrorPredicting e)
         \<and> notifications_of (effects (predictMessage openai calls isAiEnabled s chatId msgs)) = []
         \<and> requests_of (effects (predictMessage openai calls isAiEnabled s chatId msgs)) =
             [completionRequest (map (formatMessage s) (slice_last 20 msgs))]"
  using assms(5) predictMessage_sync_pass(3,4) [OF assms(1-4)]
  by (simp add: predictMessage_pass [OF assms(1-4)] predictMessage_resume_error
        predictMessage_try_def notifications_of_append requests_of_append)

theorem predictMessage_boundary_error_witness:
  "retval (predictMessage (always (Inl (Error ''rate limit''))) returning True ready ''C1'' [msg_hi]) = []
   \<and> last (effects (predictMessage (always (Inl (Error ''rate limit''))) returning True ready ''C1'' [msg_hi]))
        = Console (ErrorPredicting (Error ''rate limit''))
   \<and> notifications_of (effects (predictMessage (always (Inl (Error ''rate limit''))) returning True ready ''C1'' [msg_hi])) = []
   \<and> length (requests_of (effects (predictMessage (always (Inl (Error ''rate limit''))) returning True ready ''C1'' [msg_hi]))) = 1"
proof -
  have g: "currentChatId ready = Some ''C1''" "\<not> falsy (currentUserId ready)" "[msg_hi] \<noteq> []" "True"
    "(\<lambda>r. Inl (Error ''rate limit''))
       (completionRequest (map (formatMessage ready) (slice_last 20 [msg_hi]))) = Inl (Error ''rate limit'')"
    by (simp_all add: ready_fields falsy_simps)
  from predictMessage_boundary_error [where calls = returning, OF g] show ?thesis by simp
qed

text \<open>
  C6: the request that \<open>predictMessage\<close> sends holds the system turn followed
  by one turn for each of the last 20 messages, in their order; a turn has the content
  of its message and no username, its role is \<open>assistant\<close> when the message's
  username is the current user identifier and \<open>user\<close> when the username is
  another one or absent.
\<close>

theorem predictMessage_request_turns:
  assumes "currentChatId s = Some chatId" and "currentUserId s = Some u" and "u \<noteq> []"
    and "msgs \<noteq> []" and "isAiEnabled"
  shows "\<exists>turns.
           requests_of (effects (predictMessage openai calls isAiEnabled s chatId msgs)) =
             [\<lparr>model = ''gpt-4'',
               messages = \<lparr>turn_role = System, turn_content = systemPrompt\<rparr> # turns,
               max_tokens = 100, temperature = 7 / 10, presence_penalty = 6 / 10,
               frequency_penalty = 5 / 10\<rparr>]
         \<and> length turns = length (drop (length msgs - 20) msgs)
         \<and> (\<forall>i < length turns.
               turn_content (turns ! i) = content (drop (length msgs - 20) msgs ! i)
             \<and> (username (drop (length msgs - 20) msgs ! i) = Some u \<longrightarrow>
                  turn_role (turns ! i) = Assistant)
             \<and> (username (drop (length msgs - 20) msgs ! i) \<noteq> Some u \<longrightarrow>
                  turn_role (turns ! i) = User))"
proof -
  let ?recent = "drop (length msgs - 20) msgs"
  let ?turns = "map (formatMessage s) ?recent"
  from assms have g: "\<not> falsy (currentUserId s)" by (simp add: falsy_simps)
  have r: "requests_of (effects (predictMessage openai calls isAiEnabled s chatId msgs)) =
             [completionRequest ?turns]"
    using predictMessage_sync_pass(3) [OF assms(1) g assms(4,5)]
    by (simp add: predictMessage_pass [OF assms(1) g assms(4,5)] requests_of_append
          predictMessage_resume_requests slice_last_def)
  have f: "turn_content (formatMessage s m) = content m
           \<and> (username m = Some u \<longrightarrow> turn_role (formatMessage s m) = Assistant)
           \<and> (username m \<noteq> Some u \<longrightarrow> turn_role (formatMessage s m) = User)" for m
    using assms(2) by (cases "username m") (simp_all add: formatMessage_def strict_equals_def)
  have "\<forall>i < length ?turns.
               turn_content (?turns ! i) = content (?recent ! i)
             \<and> (username (?recent ! i) = Some u \<longrightarrow> turn_role (?turns ! i) = Assistant)
             \<and> (username (?recent ! i) \<noteq> Some u \<longrightarrow> turn_role (?turns ! i) = User)"
    using f by simp
  with r show ?thesis
    unfolding completionRequest_def by (intro exI [of _ ?turns]) simp
qed

theorem predictMessage_request_turns_witness:
  "requests_of (effects (predictMessage (always hello) returning True ready ''C1'' [msg_hi, msg_yo,
       \<lparr>role = User, content = ''ok'', username = None\<rparr>])) =
     [\<lparr>model = ''gpt-4'',
       messages = [\<lparr>turn_role = System, turn_content = systemPrompt\<rparr>,
                   \<lparr>turn_role = User, turn_content = ''hi''\<rparr>,
                   \<lparr>turn_role = Assistant, turn_content = ''yo''\<rparr>,
                   \<lparr>turn_role = User, turn_content = ''ok''\<rparr>],
       max_tokens = 100, temperature = 7 / 10, presence_penalty = 6 / 10,
       frequency_penalty = 5 / 10\<rparr>]"
proof -
  let ?ms = "[msg_hi, msg_yo, \<lparr>role = User, content = ''ok'', username = None\<rparr>]"
  have g: "currentChatId ready = Some ''C1''" "currentUserId ready = Some ''alice''" "''alice'' \<noteq> []"
    "?ms \<noteq> []" "True"
    by (simp_all add: ready_fields)
  from predictMessage_request_turns [OF g, where openai = "always hello" and calls = returning]
  obtain turns where r: "requests_of (effects (predictMessage (always hello) returning True ready ''C1'' ?ms)) =
             [\<lparr>model = ''gpt-4'',
               messages = \<lparr>turn_role = System, turn_content = systemPrompt\<rparr> # turns,
               max_tokens = 100, temperature = 7 / 10, presence_penalty = 6 / 10,
               frequency_penalty = 5 / 10\<rparr>]"
    and l: "length turns = length (drop (length ?ms - 20) ?ms)"
    and t: "\<forall>i < length turns.
               turn_content (turns ! i) = content (drop (length ?ms - 20) ?ms ! i)
             \<and> (username (drop (length ?ms - 20) ?ms ! i) = Some ''alice'' \<longrightarrow>
                  turn_role (turns ! i) = Assistant)
             \<and> (username (drop (length ?ms - 20) ?ms ! i) \<noteq> Some ''alice'' \<longrightarrow>
                  turn_role (turns ! i) = User)"
    by blast
  from l have l3: "length turns = 3" by simp
  then obtain a b c where abc: "turns = [a, b, c]"
    by (metis (no_types) length_0_conv length_Suc_conv numeral_3_eq_3)
  from t [rule_format, of 0] t [rule_format, of 1] t [rule_format, of 2] abc
  have "a = \<lparr>turn_role = User, turn_content = ''hi''\<rparr>"
       "b = \<lparr>turn_role = Assistant, turn_content = ''yo''\<rparr>"
       "c = \<lparr>turn_role = User, turn_content = ''ok''\<rparr>"
    by simp_all
  with r abc show ?thesis by simp
qed

section \<open>The bound on stored history\<close>

text \<open>
  C5, as the code has it: after any sequence of calls on a fresh service no chat
  holds more than 20 messages; \<open>updateHistory\<close> on the active chat, when it holds
  20 messages, appends the new message and drops the oldest one; on a chat that is not
  the active one \<open>updateHistory\<close> changes nothing.
\<close>

theorem history_never_exceeds_20:
  "(\<forall>c h. messageHistory (fst (run init ops)) c = Some h \<longrightarrow> length h \<le> 20)
   \<and> (currentChatId s = Some c \<and> messageHistory s c = Some h \<and> length h = 20 \<longrightarrow>
        messageHistory (updateHistory s c m) c = Some (tl h @ [m]) \<and> length (tl h @ [m]) = 20)
   \<and> (Some c \<noteq> currentChatId s \<longrightarrow> updateHistory s c m = s)"
proof (intro conjI impI)
  from history_bounded_run [OF history_bounded_init, of ops]
  show "\<forall>c h. messageHistory (fst (run init ops)) c = Some h \<longrightarrow> length h \<le> 20"
    by (simp add: history_bounded_def)
next
  assume a: "currentChatId s = Some c \<and> messageHistory s c = Some h \<and> length h = 20"
  then have "h \<noteq> []" by auto
  with a show "messageHistory (updateHistory s c m) c = Some (tl h @ [m])"
    by (simp add: updateHistory_def Let_def)
  from a show "length (tl h @ [m]) = 20" by simp
next
  assume "Some c \<noteq> currentChatId s"
  then show "updateHistory s c m = s" by (simp add: updateHistory_def)
qed

theorem history_never_exceeds_20_witness:
  "messageHistory (fst (run init [SetCurrentChat (Some ''a''), UpdateHistory ''a'' msg_hi])) ''a''
     = Some [msg_hi]
   \<and> length [msg_hi] \<le> 20
   \<and> messageHistory (updateHistory (after (predictMessage_sync True ready ''C1'' (replicate 20 msg_hi)))
        ''C1'' msg_yo) ''C1'' = Some (tl (replicate 20 msg_hi) @ [msg_yo])
   \<and> updateHistory ready ''C2'' msg_yo = ready"
proof -
  let ?s = "after (predictMessage_sync True ready ''C1'' (replicate 20 msg_hi))"
  have a: "messageHistory (fst (run init [SetCurrentChat (Some ''a''), UpdateHistory ''a'' msg_hi])) ''a''
     = Some [msg_hi]"
    by (simp add: setCurrentChat_def updateHistory_def init_def falsy_simps)
  have b: "currentChatId ?s = Some ''C1'' \<and> messageHistory ?s ''C1'' = Some (replicate 20 msg_hi)
           \<and> length (replicate 20 msg_hi) = 20"
    by (simp add: predictMessage_sync_def Let_def ready_fields falsy_simps slice_last_def)
  have c: "Some ''C2'' \<noteq> currentChatId ready" by (simp add: ready_fields)
  from history_never_exceeds_20 [of "[SetCurrentChat (Some ''a''), UpdateHistory ''a'' msg_hi]"
      ?s "''C1''" "replicate 20 msg_hi" msg_yo] a b
  have d: "length [msg_hi] \<le> 20
    \<and> messageHistory (updateHistory ?s ''C1'' msg_yo) ''C1'' = Some (tl (replicate 20 msg_hi) @ [msg_yo])"
    by blast
  from history_never_exceeds_20 [of "[]" ready "''C2''" "[]" msg_yo] c
  have "updateHistory ready ''C2'' msg_yo = ready" by blast
  with a d show ?thesis by blast
qed

text \<open>
  C5 as the claim words it fails for a chat that is not active: chat \<open>a\<close> holds
  20 messages after a prediction, chat \<open>b\<close> becomes active, and
  \<open>updateHistory('a', m)\<close> neither appends \<open>m\<close> nor drops the oldest
  message.
\<close>

theorem updateHistory_inactive_full_chat_counterexample:
  "messageHistory (fst (run init [SetCurrentUser ''alice'', SetCurrentChat (Some ''a''),
       PredictMessage True ''a'' (replicate 20 msg_hi), SetCurrentChat (Some ''b'')])) ''a''
     = Some (replicate 20 msg_hi)
   \<and> length (replicate 20 msg_hi) = 20
   \<and> messageHistory (updateHistory (fst (run init [SetCurrentUser ''alice'', SetCurrentChat (Some ''a''),
       PredictMessage True ''a'' (replicate 20 msg_hi), SetCurrentChat (Some ''b'')])) ''a'' msg_yo) ''a''
     = Some (replicate 20 msg_hi)
   \<and> replicate 20 msg_hi \<noteq> tl (replicate 20 msg_hi) @ [msg_yo]"
proof -
  let ?s = "fst (run init [SetCurrentUser ''alice'', SetCurrentChat (Some ''a''),
       PredictMessage True ''a'' (replicate 20 msg_hi), SetCurrentChat (Some ''b'')])"
  have a: "messageHistory ?s ''a'' = Some (replicate 20 msg_hi)"
    by (simp add: setCurrentUser_def setCurrentChat_def predictMessage_sync_def Let_def init_def
          falsy_simps slice_last_def)
  have b: "currentChatId ?s = Some ''b''"
    by (simp add: setCurrentUser_def setCurrentChat_def predictMessage_sync_def Let_def init_def
          falsy_simps slice_last_def)
  from a b have c: "messageHistory (updateHistory ?s ''a'' msg_yo) ''a'' = Some (replicate 20 msg_hi)"
    by (simp add: updateHistory_def)
  have d: "replicate 20 msg_hi \<noteq> tl (replicate 20 msg_hi) @ [msg_yo]"
  proof
    assume "replicate 20 msg_hi = tl (replicate 20 msg_hi) @ [msg_yo]"
    then have "last (replicate 20 msg_hi) = last (tl (replicate 20 msg_hi) @ [msg_yo])" by simp
    then show False by simp
  qed
  from a c d show ?thesis by simp
qed

section \<open>Clearing, regenerating, listeners\<close>




text \<open>
  C8: with the AI-enabled setting false \<open>regeneratePrediction\<close> returns the
  empty string, sends no request, calls no listener and changes no field; with the
  setting true it is \<open>predictMessage\<close> on the same arguments, result, fields and
  events alike.
\<close>

theorem regeneratePrediction_delegates:
  "(\<not> isAiEnabled \<longrightarrow>
      retval (regeneratePrediction openai calls isAiEnabled s chatId msgs) = []
      \<and> requests_of (effects (regeneratePrediction openai calls isAiEnabled s chatId msgs)) = []
      \<and> notifications_of (effects (regeneratePrediction openai calls isAiEnabled s chatId msgs)) = []
      \<and> after (regeneratePrediction openai calls isAiEnabled s chatId msgs) = s)
   \<and> (isAiEnabled \<longrightarrow>
      regeneratePrediction openai calls isAiEnabled s chatId msgs =
        predictMessage openai calls isAiEnabled s chatId msgs)"
  by (simp add: regeneratePrediction_def)

theorem regeneratePrediction_delegates_witness:
  "retval (regeneratePrediction (always hello) returning False ready ''C1'' [msg_hi]) = []
   \<and> requests_of (effects (regeneratePrediction (always hello) returning False ready ''C1'' [msg_hi])) = []
   \<and> after (regeneratePrediction (always hello) returning False ready ''C1'' [msg_hi]) = ready
   \<and> regeneratePrediction (always hello) returning True ready ''C1'' [msg_hi]
       = predictMessage (always hello) returning True ready ''C1'' [msg_hi]
   \<and> retval (regeneratePrediction (always hello) returning True ready ''C1'' [msg_hi]) = ''hello!''"
proof -
  have "retval (predictMessage (always hello) returning True ready ''C1'' [msg_hi]) = ''hello!''"
    by (simp add: predictMessage_def predictMessage_sync_def predictMessage_resume_def
          predictMessage_try_def notifyPredictionListeners_def first_choice_content_def Let_def
          ready_fields falsy_simps slice_last_def)
  with regeneratePrediction_delegates [of False "always hello" returning ready "''C1''" "[msg_hi]"]
    regeneratePrediction_delegates [of True "always hello" returning ready "''C1''" "[msg_hi]"]
  show ?thesis by simp
qed

text \<open>
  C9: adding a listener that is already registered changes nothing, so adding twice
  is adding once; and after \<open>removePredictionListener\<close> of a listener, no
  sequence of calls that does not add it again calls it, continuations of requests
  still in flight included.
\<close>

theorem listener_set_semantics:
  "addPredictionListener (addPredictionListener s l) l = addPredictionListener s l
   \<and> (l \<in> set (predictionListeners s) \<longrightarrow> addPredictionListener s l = s)
   \<and> (AddPredictionListener l \<notin> set ops \<longrightarrow>
        \<not> notified l (snd (run (removePredictionListener s l) ops)))"
proof (intro conjI impI)
  show "addPredictionListener (addPredictionListener s l) l = addPredictionListener s l"
    by (simp add: addPredictionListener_def)
  show "addPredictionListener s l = s" if "l \<in> set (predictionListeners s)"
    using that by (simp add: addPredictionListener_def)
  have "l \<notin> set (predictionListeners (removePredictionListener s l))"
    by (simp add: removePredictionListener_def)
  from absent_run [OF this]
  show "\<not> notified l (snd (run (removePredictionListener s l) ops))"
    if "AddPredictionListener l \<notin> set ops"
    using that by blast
qed

theorem listener_set_semantics_witness:
  "addPredictionListener ready 7 = ready
   \<and> notified 7 (snd (run ready [ClearPrediction returning, PredictMessage True ''C1'' [msg_hi],
        Resume returning ''C1'' hello]))
   \<and> \<not> notified 7 (snd (run (removePredictionListener ready 7)
        [ClearPrediction returning, PredictMessage True ''C1'' [msg_hi],
         Resume returning ''C1'' hello]))
   \<and> notified 7 (snd (run (removePredictionListener ready 7)
        [AddPredictionListener 7, ClearPrediction returning]))"
proof -
  have a: "7 \<in> set (predictionListeners ready)" by (simp add: ready_fields)
  have b: "AddPredictionListener 7 \<notin> set [ClearPrediction returning,
        PredictMessage True ''C1'' [msg_hi], Resume returning ''C1'' hello]" by simp
  have c: "notified 7 (snd (run ready [ClearPrediction returning,
        PredictMessage True ''C1'' [msg_hi], Resume returning ''C1'' hello]))"
    by (simp add: run_Cons notified_append)
       (simp add: clearPrediction_def notifyPredictionListeners_def ready_fields falsy_simps
          Let_def notified_def notifications_of_append)
  have d: "notified 7 (snd (run (removePredictionListener ready 7)
        [AddPredictionListener 7, ClearPrediction returning]))"
    by (simp add: clearPrediction_def notifyPredictionListeners_def removePredictionListener_def
          addPredictionListener_def setCurrentChat_def setCurrentUser_def init_def falsy_simps
          Let_def notified_def notifications_of_append)
  from listener_set_semantics [of ready 7 "[ClearPrediction returning,
        PredictMessage True ''C1'' [msg_hi], Resume returning ''C1'' hello]"] a b c d
  show ?thesis by blast
qed

text \<open>
  C10: \<open>setCurrentChat('')\<close> empties the history map and differs from
  \<open>setCurrentChat(null)\<close> only in the active chat it records, which is the
  empty string; afterwards \<open>predictMessage('', msgs)\<close> passes the active-chat
  check and sends a request, and \<open>updateHistory('', m)\<close> stores \<open>m\<close>.
\<close>

theorem setCurrentChat_empty_string:
  "messageHistory (setCurrentChat s (Some [])) = Map.empty
   \<and> setCurrentChat s (Some []) = (setCurrentChat s None)\<lparr>currentChatId := Some []\<rparr>
   \<and> currentChatId (setCurrentChat s (Some [])) = Some []
   \<and> (\<not> falsy (currentUserId s) \<and> msgs \<noteq> [] \<longrightarrow>
        retval (predictMessage_sync True (setCurrentChat s (Some [])) [] msgs) =
          Awaiting (completionRequest (map (formatMessage s) (slice_last 20 msgs)))
        \<and> messageHistory (after (predictMessage_sync True (setCurrentChat s (Some [])) [] msgs)) []
            = Some (slice_last 20 msgs))
   \<and> messageHistory (updateHistory (setCurrentChat s (Some [])) [] m) [] = Some [m]"
proof (intro conjI impI)
  show "messageHistory (setCurrentChat s (Some [])) = Map.empty"
    by (simp add: setCurrentChat_def falsy_simps)
  show "setCurrentChat s (Some []) = (setCurrentChat s None)\<lparr>currentChatId := Some []\<rparr>"
    by (simp add: setCurrentChat_def falsy_simps)
  show c: "currentChatId (setCurrentChat s (Some [])) = Some []"
    by (simp add: setCurrentChat_def falsy_simps)
  show "messageHistory (updateHistory (setCurrentChat s (Some [])) [] m) [] = Some [m]"
    by (simp add: updateHistory_def setCurrentChat_def falsy_simps)
  assume a: "\<not> falsy (currentUserId s) \<and> msgs \<noteq> []"
  have u: "currentUserId (setCurrentChat s (Some [])) = currentUserId s"
    by (simp add: setCurrentChat_def falsy_simps)
  have f: "formatMessage (setCurrentChat s (Some [])) = formatMessage s"
    by (rule ext) (simp add: formatMessage_def u)
  from a u have g: "\<not> falsy (currentUserId (setCurrentChat s (Some [])))" "msgs \<noteq> []" "True"
    by simp_all
  from predictMessage_sync_pass(1) [OF c g]
  show "retval (predictMessage_sync True (setCurrentChat s (Some [])) [] msgs) =
          Awaiting (completionRequest (map (formatMessage s) (slice_last 20 msgs)))"
    by (simp add: f)
  from predictMessage_sync_pass(2) [OF c g]
  show "messageHistory (after (predictMessage_sync True (setCurrentChat s (Some [])) [] msgs)) []
            = Some (slice_last 20 msgs)"
    by simp
qed

theorem setCurrentChat_empty_string_witness:
  "messageHistory (updateHistory ready ''C1'' msg_hi) ''C1'' = Some [msg_hi]
   \<and> messageHistory (setCurrentChat (updateHistory ready ''C1'' msg_hi) (Some '''')) = Map.empty
   \<and> currentChatId (setCurrentChat (updateHistory ready ''C1'' msg_hi) (Some '''')) = Some ''''
   \<and> retval (predictMessage_sync True (setCurrentChat (updateHistory ready ''C1'' msg_hi) (Some ''''))
        '''' [msg_yo]) =
       Awaiting (completionRequest [\<lparr>turn_role = Assistant, turn_content = ''yo''\<rparr>])"
proof -
  have a: "messageHistory (updateHistory ready ''C1'' msg_hi) ''C1'' = Some [msg_hi]"
    by (simp add: updateHistory_def ready_fields)
  have b: "\<not> falsy (currentUserId (updateHistory ready ''C1'' msg_hi)) \<and> [msg_yo] \<noteq> []"
    by (simp add: updateHistory_def ready_fields falsy_simps)
  have c: "map (formatMessage (updateHistory ready ''C1'' msg_hi)) (slice_last 20 [msg_yo]) =
           [\<lparr>turn_role = Assistant, turn_content = ''yo''\<rparr>]"
    by (simp add: updateHistory_def ready_fields slice_last_def formatMessage_def strict_equals_def)
  from setCurrentChat_empty_string [of "updateHistory ready ''C1'' msg_hi" "[msg_yo]" msg_hi] b
  have "messageHistory (setCurrentChat (updateHistory ready ''C1'' msg_hi) (Some '''')) = Map.empty"
    and "currentChatId (setCurrentChat (updateHistory ready ''C1'' msg_hi) (Some '''')) = Some ''''"
    and "retval (predictMessage_sync True (setCurrentChat (updateHistory ready ''C1'' msg_hi) (Some ''''))
        '''' [msg_yo]) =
       Awaiting (completionRequest (map (formatMessage (updateHistory ready ''C1'' msg_hi))
         (slice_last 20 [msg_yo])))"
    by blast+
  with a show ?thesis unfolding c by blast
qed

end
